theory Spec2Isabelle
  imports Main "HOL-Library.Multiset"
begin

section \<open>Punctuation and capitalization restoration: segmentation, alignment, voting\<close>

text \<open>
  A shallow embedding of \<^verbatim>\<open>punctuate_capitalize_nmt.py\<close>. Python strings are
  \<^typ>\<open>string\<close> (characters read as code points below 256), Python integers are
  \<^typ>\<open>int\<close>, lengths and \<^verbatim>\<open>enumerate\<close> indices are \<^typ>\<open>nat\<close>. A raised
  exception is the left injection of a sum; a loop that may run forever is a
  partial function in the option monad, \<^term>\<open>None\<close> meaning that it does not return.
\<close>

subsection \<open>Python primitives used by the script\<close>

datatype py_error = IndexError | AssertionError | ValueError | ReError | TypeError

text \<open>\<^verbatim>\<open>str.isspace\<close> on the code points below 256.\<close>

definition is_space :: "char \<Rightarrow> bool" where
  "is_space c = (c = CHR 0x09 \<or> c = CHR 0x0A \<or> c = CHR 0x0B \<or> c = CHR 0x0C \<or> c = CHR 0x0D
     \<or> c = CHR 0x1C \<or> c = CHR 0x1D \<or> c = CHR 0x1E \<or> c = CHR 0x1F \<or> c = CHR 0x20
     \<or> c = CHR 0x85 \<or> c = CHR 0xA0)"

text \<open>
  \<^verbatim>\<open>s.split()\<close> with no separator: maximal runs of non-whitespace characters.
  The first argument is the word read so far.
\<close>

fun split_ws :: "string \<Rightarrow> string \<Rightarrow> string list" where
  "split_ws w [] = (if w = [] then [] else [w])"
| "split_ws w (c # cs) =
     (if is_space c then (if w = [] then split_ws [] cs else w # split_ws [] cs)
      else split_ws (w @ [c]) cs)"

definition py_split :: "string \<Rightarrow> string list" where
  "py_split s = split_ws [] s"

text \<open>\<^verbatim>\<open>' '.join(ws)\<close>.\<close>

fun join_space :: "string list \<Rightarrow> string" where
  "join_space [] = []"
| "join_space [w] = w"
| "join_space (w # v # ws) = w @ CHR '' '' # join_space (v # ws)"

text \<open>
  A slice bound as Python normalises it against a sequence of length \<open>n\<close>: a negative
  bound counts from the end, and the result is clipped to \<open>0..n\<close>.
\<close>

definition slice_bound :: "nat \<Rightarrow> int \<Rightarrow> nat" where
  "slice_bound n i = (if i < 0 then nat (max 0 (int n + i)) else min n (nat i))"

text \<open>\<^verbatim>\<open>xs[a:b]\<close>.\<close>

definition py_slice :: "'a list \<Rightarrow> int \<Rightarrow> int \<Rightarrow> 'a list" where
  "py_slice xs a b =
     (let lo = slice_bound (length xs) a; hi = slice_bound (length xs) b
      in take (hi - lo) (drop lo xs))"

text \<open>\<^verbatim>\<open>xs[i]\<close>: a negative index counts from the end, out of range raises.\<close>

definition py_index :: "'a list \<Rightarrow> int \<Rightarrow> py_error + 'a" where
  "py_index xs i =
     (let n = int (length xs); k = (if i < 0 then n + i else i)
      in if 0 \<le> k \<and> k < n then Inr (xs ! nat k) else Inl IndexError)"

subsection \<open>\<^verbatim>\<open>split_into_segments\<close>\<close>

text \<open>
  The local variables of \<^verbatim>\<open>split_into_segments\<close>. \<^verbatim>\<open>segment_start\<close> is set
  to 0 once, before the loop over the queries, and is never reset.
\<close>

record seg_state =
  s_segments :: "string list"
  s_query_indices :: "int list"
  s_start_word_i :: "int list"
  s_segment_start :: int

text \<open>
  The \<^verbatim>\<open>while segment_start + max_seq_length < len(words)\<close> loop of one query.
  With \<open>step \<le> 0\<close> the condition stays true once it holds, and the loop does not return.
\<close>

partial_function (option) segment_while ::
  "string list \<Rightarrow> int \<Rightarrow> int \<Rightarrow> nat \<Rightarrow> seg_state \<Rightarrow> seg_state option" where
  "segment_while words max_seq_length step q_i st =
     (if s_segment_start st + max_seq_length < int (length words)
      then segment_while words max_seq_length step q_i
        \<lparr>s_segments = s_segments st @
           [join_space (py_slice words (s_segment_start st) (s_segment_start st + max_seq_length))],
         s_query_indices = s_query_indices st @ [int q_i],
         s_start_word_i = s_start_word_i st @ [s_segment_start st],
         s_segment_start = s_segment_start st + step\<rparr>
      else Some st)"

declare segment_while.simps [code]

text \<open>The \<^verbatim>\<open>for q_i, query in enumerate(texts)\<close> loop.\<close>

fun query_for :: "int \<Rightarrow> int \<Rightarrow> nat \<Rightarrow> string list \<Rightarrow> seg_state \<Rightarrow> seg_state option" where
  "query_for max_seq_length step q_i [] st = Some st"
| "query_for max_seq_length step q_i (query # texts) st =
     (case segment_while (py_split query) max_seq_length step q_i st of
        None \<Rightarrow> None
      | Some st' \<Rightarrow> query_for max_seq_length step (Suc q_i) texts st')"

definition split_into_segments ::
  "string list \<Rightarrow> int \<Rightarrow> int \<Rightarrow> (string list \<times> int list \<times> int list) option" where
  "split_into_segments texts max_seq_length step =
     (case query_for max_seq_length step 0 texts
        \<lparr>s_segments = [], s_query_indices = [], s_start_word_i = [], s_segment_start = 0\<rparr> of
        None \<Rightarrow> None
      | Some st \<Rightarrow> Some (s_segments st, s_query_indices st, s_start_word_i st))"

text \<open>
  The command-line namespace as far as the script reads it here. In \<^verbatim>\<open>main\<close>
  the segmenter is called as
  \<^verbatim>\<open>split_into_segments(texts, args.max_seq_length, args.margin)\<close>.
\<close>

record args =
  args_input_manifest :: "string option"
  args_output_manifest :: "string option"
  args_max_seq_length :: int
  args_step :: int
  args_margin :: int

definition main_segments :: "args \<Rightarrow> string list \<Rightarrow> (string list \<times> int list \<times> int list) option" where
  "main_segments a texts = split_into_segments texts (args_max_seq_length a) (args_margin a)"

subsection \<open>\<^verbatim>\<open>get_args\<close>\<close>

datatype arg_error =
    OutputManifestRequiresInputManifest
  | MaxSeqLengthNotPositive int
  | MarginStepCondition int int int

text \<open>
  The three \<^verbatim>\<open>parser.error\<close> calls that follow \<^verbatim>\<open>parser.parse_args()\<close>, in
  the order of the source; \<^verbatim>\<open>parser.error\<close> prints its message and exits, so the
  first failing check decides. The constructors carry the values that the message
  formats: \<^verbatim>\<open>max_seq_length\<close>, and \<^verbatim>\<open>max_seq_length\<close>, \<^verbatim>\<open>margin\<close>, \<^verbatim>\<open>step\<close>.
\<close>

definition get_args_checks :: "args \<Rightarrow> arg_error + unit" where
  "get_args_checks a =
     (if args_input_manifest a = None \<and> args_output_manifest a \<noteq> None
        then Inl OutputManifestRequiresInputManifest
      else if args_max_seq_length a \<le> 0
        then Inl (MaxSeqLengthNotPositive (args_max_seq_length a))
      else if args_max_seq_length a - 2 * args_margin a < args_step a
        then Inl (MarginStepCondition (args_max_seq_length a) (args_margin a) (args_step a))
      else Inr ())"

text \<open>
  \<^verbatim>\<open>add_argument\<close> hands its keyword arguments to the constructor of the argument's
  action, which knows the keywords listed here; any other keyword raises
  \<^verbatim>\<open>TypeError\<close>. The argument of the model is the list of keywords of one call.
\<close>

definition add_argument :: "string list \<Rightarrow> py_error + unit" where
  "add_argument keywords =
     (if list_all (\<lambda>k. k \<in> set [''action'', ''nargs'', ''const'', ''default'', ''type'',
            ''choices'', ''required'', ''help'', ''metavar'', ''dest'']) keywords
      then Inr () else Inl TypeError)"

fun add_arguments :: "string list list \<Rightarrow> py_error + unit" where
  "add_arguments [] = Inr ()"
| "add_arguments (keywords # calls) =
     (case add_argument keywords of Inl e \<Rightarrow> Inl e | Inr u \<Rightarrow> add_arguments calls)"

datatype get_args_failure = Raises py_error | ParserError arg_error

text \<open>
  \<^verbatim>\<open>get_args\<close>: the twelve \<^verbatim>\<open>add_argument\<close> calls in the order of the source,
  each with the keywords it passes, then \<^verbatim>\<open>parse_args\<close> and the checks. The
  argument \<open>parsed\<close> is the namespace that \<^verbatim>\<open>parse_args\<close> would give for the
  command line. The last call, for \<^verbatim>\<open>--capitalization_labels\<close>, passes the keyword
  \<^verbatim>\<open>defalt\<close>.
\<close>

definition get_args :: "args \<Rightarrow> get_args_failure + unit" where
  "get_args parsed =
     (case add_arguments
        [[''type'', ''help''], [''type'', ''help''], [''type'', ''help''], [''type'', ''help''],
         [''type'', ''help''],
         [''type'', ''default'', ''help''], [''type'', ''default'', ''help''],
         [''type'', ''default'', ''help''], [''type'', ''default'', ''help''],
         [''choices'', ''help''],
         [''action'', ''help''],
         [''defalt'', ''help'']] of
        Inl e \<Rightarrow> Inl (Raises e)
      | Inr u \<Rightarrow>
          (case get_args_checks parsed of
             Inl e \<Rightarrow> Inl (ParserError e)
           | Inr u' \<Rightarrow> Inr ()))"

subsection \<open>\<^verbatim>\<open>adjust_predicted_labels_length\<close>\<close>

text \<open>
  \<^verbatim>\<open>len(capitalization_pattern.findall(s))\<close> for the pattern
  \<^verbatim>\<open>[{capitalization_labels}]\<close>: the number of characters of \<open>s\<close> that belong to
  the label alphabet. This reads the character class literally, as it is for an
  alphabet of letters and digits such as \<^verbatim>\<open>OuU\<close>, the only kind used below. It
  does not cover an alphabet that holds a character the class syntax reads specially
  (a caret in front, a closing bracket, a hyphen between two characters, a
  backslash): there the pattern matches other characters or does not compile. An
  empty class does not compile.
\<close>

definition count_labels :: "string \<Rightarrow> string \<Rightarrow> nat" where
  "count_labels capitalization_labels s = length (filter (\<lambda>c. c \<in> set capitalization_labels) s)"

text \<open>
  The backward scan \<^verbatim>\<open>while i > num_words\<close>; it returns the final \<^verbatim>\<open>pos\<close>.
  \<^verbatim>\<open>labels[pos]\<close> raises once \<^verbatim>\<open>pos\<close> has run past the beginning.
\<close>

function truncate_while :: "string \<Rightarrow> string \<Rightarrow> int \<Rightarrow> int \<Rightarrow> int \<Rightarrow> py_error + int" where
  "truncate_while capitalization_labels labels num_words i pos =
     (if i > num_words then
        (case py_index labels pos of
           Inl e \<Rightarrow> Inl e
         | Inr c \<Rightarrow> truncate_while capitalization_labels labels num_words
             (if c \<in> set capitalization_labels then i - 1 else i) (pos - 1))
      else Inr pos)"
  by pat_completeness auto
termination
  by (relation "measure (\<lambda>(capitalization_labels, labels, num_words, i, pos).
        nat (pos + int (length labels) + 1))")
     (auto simp: py_index_def Let_def split: if_splits)

text \<open>The body of the loop over \<^verbatim>\<open>zip(segments, autoregressive_labels)\<close>.\<close>

definition adjust_one :: "string \<Rightarrow> string \<Rightarrow> string \<Rightarrow> py_error + string" where
  "adjust_one capitalization_labels segment labels =
     (let num_words = length (py_split segment);
          num_word_labels = count_labels capitalization_labels segment
      in if num_words > num_word_labels then
           (case py_index labels (- 1) of
              Inl e \<Rightarrow> Inl e
            | Inr c \<Rightarrow>
                if c \<noteq> CHR '' '' then
                  (case py_index capitalization_labels 0 of
                     Inl e \<Rightarrow> Inl e
                   | Inr neutral \<Rightarrow>
                       Inr (labels @ '' '' @
                         concat (replicate (num_words - num_word_labels) ([neutral] @ '' ''))))
                else Inr labels)
         else if num_words < num_word_labels then
           (case truncate_while capitalization_labels labels (int num_words)
                   (int num_word_labels) (int (length labels) - 1) of
              Inl e \<Rightarrow> Inl e
            | Inr pos \<Rightarrow> Inr (py_slice labels 0 (pos + 1)))
         else Inr labels)"

fun adjust_for :: "string \<Rightarrow> (string \<times> string) list \<Rightarrow> string list \<Rightarrow> py_error + string list" where
  "adjust_for capitalization_labels [] result = Inr result"
| "adjust_for capitalization_labels ((segment, labels) # rest) result =
     (case adjust_one capitalization_labels segment labels of
        Inl e \<Rightarrow> Inl e
      | Inr labels' \<Rightarrow> adjust_for capitalization_labels rest (result @ [labels']))"

definition adjust_predicted_labels_length ::
  "string list \<Rightarrow> string list \<Rightarrow> string \<Rightarrow> py_error + string list" where
  "adjust_predicted_labels_length segments autoregressive_labels capitalization_labels =
     (if capitalization_labels = [] then Inl ReError
      else adjust_for capitalization_labels (zip segments autoregressive_labels) [])"

subsection \<open>\<^verbatim>\<open>apply_autoregressive_labels\<close>\<close>

text \<open>\<^verbatim>\<open>x in s\<close> on strings: \<open>x\<close> occurs in \<open>s\<close> as a contiguous substring.\<close>

fun str_in :: "string \<Rightarrow> string \<Rightarrow> bool" where
  "str_in x [] = (x = [])"
| "str_in x (c # cs) = (take (length x) (c # cs) = x \<or> str_in x cs)"

text \<open>
  \<^verbatim>\<open>s.split(sep)\<close> for a non-empty separator, scanning \<open>s\<close> from the left; the
  second argument is the piece read so far.
\<close>

function str_split :: "string \<Rightarrow> string \<Rightarrow> string \<Rightarrow> string list" where
  "str_split sep w [] = [w]"
| "str_split sep w (c # cs) =
     (if sep \<noteq> [] \<and> take (length sep) (c # cs) = sep
      then w # str_split sep [] (drop (length sep) (c # cs))
      else str_split sep (w @ [c]) cs)"
  by pat_completeness auto
termination
  by (relation "measure (\<lambda>(sep, w, s). length s)") auto

text \<open>The two lists of \<^verbatim>\<open>Counter\<close>s of one query.\<close>

record votes =
  punctuation_voting :: "string multiset list"
  capitalization_voting :: "string multiset list"

text \<open>
  The loop \<^verbatim>\<open>for lbl_i, lbl in enumerate(labels)\<close> of one segment. \<^verbatim>\<open>continue\<close>
  goes on with the next field, \<^verbatim>\<open>break\<close> returns the tallies as they are, a
  failed \<^verbatim>\<open>assert\<close> raises.
\<close>

fun label_for ::
  "string \<Rightarrow> nat \<Rightarrow> int \<Rightarrow> bool \<Rightarrow> nat \<Rightarrow> nat \<Rightarrow> string list \<Rightarrow> nat \<Rightarrow> votes \<Rightarrow> py_error + votes" where
  "label_for capitalization_labels j margin the_last_segment num_words_in_segment
       lbl_i [] num_processed v = Inr v"
| "label_for capitalization_labels j margin the_last_segment num_words_in_segment
       lbl_i (lbl # labels) num_processed v =
     (let num_processed =
            (if str_in lbl capitalization_labels then num_processed + 1 else num_processed)
      in if j > 0 \<and> int num_processed \<le> margin \<and> margin \<noteq> 0 then
           label_for capitalization_labels j margin the_last_segment num_words_in_segment
             (Suc lbl_i) labels num_processed v
         else if \<not> the_last_segment \<and> int num_processed > int num_words_in_segment - margin then
           Inr v
         else if lbl_i mod 2 \<noteq> 0 then
           (if \<not> str_in lbl capitalization_labels then Inl AssertionError
            else if lbl \<noteq> [] then
              (if lbl_i div 2 < length (capitalization_voting v) then
                 label_for capitalization_labels j margin the_last_segment num_words_in_segment
                   (Suc lbl_i) labels num_processed
                   (v\<lparr>capitalization_voting := (capitalization_voting v)
                        [lbl_i div 2 := add_mset lbl (capitalization_voting v ! (lbl_i div 2))]\<rparr>)
               else Inl IndexError)
            else label_for capitalization_labels j margin the_last_segment num_words_in_segment
                   (Suc lbl_i) labels num_processed v)
         else
           (if str_in lbl capitalization_labels then Inl AssertionError
            else if lbl \<noteq> [] then
              (if lbl_i div 2 < length (punctuation_voting v) then
                 label_for capitalization_labels j margin the_last_segment num_words_in_segment
                   (Suc lbl_i) labels num_processed
                   (v\<lparr>punctuation_voting := (punctuation_voting v)
                        [lbl_i div 2 := add_mset lbl (punctuation_voting v ! (lbl_i div 2))]\<rparr>)
               else Inl IndexError)
            else label_for capitalization_labels j margin the_last_segment num_words_in_segment
                   (Suc lbl_i) labels num_processed v))"

text \<open>
  The body of \<^verbatim>\<open>while query_indices[j] == q_i\<close>. The fields are
  \<^verbatim>\<open>capitalization_labels.split(segment_autoregressive_labels[j])\<close>: the label
  alphabet split at the occurrences of the segment's label string. An empty separator
  raises \<^verbatim>\<open>ValueError\<close>.
\<close>

definition segment_body ::
  "string \<Rightarrow> string list \<Rightarrow> int \<Rightarrow> int \<Rightarrow> nat \<Rightarrow> nat \<Rightarrow> votes \<Rightarrow> py_error + votes" where
  "segment_body capitalization_labels segment_autoregressive_labels step margin num_words j v =
     (case py_index segment_autoregressive_labels (int j) of
        Inl e \<Rightarrow> Inl e
      | Inr segment_labels \<Rightarrow>
          (let num_words_in_segment = count_labels capitalization_labels segment_labels;
               the_last_segment = (int j * step + int num_words_in_segment \<ge> int num_words)
           in if segment_labels = [] then Inl ValueError
              else label_for capitalization_labels j margin the_last_segment num_words_in_segment
                     0 (str_split segment_labels [] capitalization_labels) 0 v))"

text \<open>
  The loop \<^verbatim>\<open>while query_indices[j] == q_i\<close>. Its body never assigns \<^verbatim>\<open>j\<close>, so
  the loop is left only by an exception or when the test fails at once.
\<close>

partial_function (option) voting_while ::
  "string \<Rightarrow> string list \<Rightarrow> int list \<Rightarrow> int \<Rightarrow> int \<Rightarrow> nat \<Rightarrow> nat \<Rightarrow> nat \<Rightarrow> votes
     \<Rightarrow> (py_error + votes) option" where
  "voting_while capitalization_labels segment_autoregressive_labels query_indices step margin
       num_words q_i j v =
     (case py_index query_indices (int j) of
        Inl e \<Rightarrow> Some (Inl e)
      | Inr qi \<Rightarrow>
          if qi = int q_i then
            (case segment_body capitalization_labels segment_autoregressive_labels step margin
                    num_words j v of
               Inl e \<Rightarrow> Some (Inl e)
             | Inr v' \<Rightarrow>
                 voting_while capitalization_labels segment_autoregressive_labels query_indices
                   step margin num_words q_i j v')
          else Some (Inr v))"

declare voting_while.simps [code]

text \<open>
  The loop \<^verbatim>\<open>for q_i, query in enumerate(queries)\<close>: fresh counters for every
  query, and \<^verbatim>\<open>j = 0\<close> before every \<^verbatim>\<open>while\<close>.
\<close>

fun voting_for ::
  "string \<Rightarrow> string list \<Rightarrow> int list \<Rightarrow> int \<Rightarrow> int \<Rightarrow> nat \<Rightarrow> string list
     \<Rightarrow> (py_error + unit) option" where
  "voting_for capitalization_labels segment_autoregressive_labels query_indices step margin
       q_i [] = Some (Inr ())"
| "voting_for capitalization_labels segment_autoregressive_labels query_indices step margin
       q_i (query # queries) =
     (let num_words = length (py_split query);
          v = \<lparr>punctuation_voting = replicate (num_words + 1) {#},
               capitalization_voting = replicate num_words {#}\<rparr>
      in case voting_while capitalization_labels segment_autoregressive_labels query_indices
                step margin num_words q_i 0 v of
           None \<Rightarrow> None
         | Some (Inl e) \<Rightarrow> Some (Inl e)
         | Some (Inr v') \<Rightarrow>
             voting_for capitalization_labels segment_autoregressive_labels query_indices
               step margin (Suc q_i) queries)"

text \<open>
  The function has no \<^verbatim>\<open>return\<close> statement: when the loop over the queries ends, it
  returns Python's \<^verbatim>\<open>None\<close>, written \<^term>\<open>Inr None\<close> here; \<^verbatim>\<open>result\<close> is
  never appended to, and \<^verbatim>\<open>start_word_i\<close> is never read. The outer option is
  non-termination.
\<close>

definition apply_autoregressive_labels ::
  "string list \<Rightarrow> string list \<Rightarrow> int list \<Rightarrow> int list \<Rightarrow> int \<Rightarrow> int \<Rightarrow> string
     \<Rightarrow> (py_error + string list option) option" where
  "apply_autoregressive_labels queries segment_autoregressive_labels query_indices start_word_i
       step margin capitalization_labels =
     (if capitalization_labels = [] then Some (Inl ReError)
      else case voting_for capitalization_labels segment_autoregressive_labels query_indices
                  step margin 0 queries of
             None \<Rightarrow> None
           | Some (Inl e) \<Rightarrow> Some (Inl e)
           | Some (Inr u) \<Rightarrow> Some (Inr None))"

subsection \<open>An invariant of the segmentation loops\<close>

text \<open>
  \<^verbatim>\<open>segment_start\<close> is not negative and every segment emitted so far splits into
  exactly \<open>m\<close> words.
\<close>

definition full_windows :: "int \<Rightarrow> seg_state \<Rightarrow> bool" where
  "full_windows m st =
     (0 \<le> s_segment_start st \<and> list_all (\<lambda>s. int (length (py_split s)) = m) (s_segments st))"

section \<open>Properties of the segmenter\<close>

subsection \<open>Splitting and joining words\<close>

lemma split_ws_nonspace:
  "\<forall>c\<in>set v. \<not> is_space c \<Longrightarrow> split_ws w (v @ cs) = split_ws (w @ v) cs"
  by (induction v arbitrary: w) auto

lemma split_ws_words:
  "\<forall>c\<in>set w. \<not> is_space c \<Longrightarrow> x \<in> set (split_ws w s) \<Longrightarrow>
   x \<noteq> [] \<and> (\<forall>c\<in>set x. \<not> is_space c)"
proof (induction s arbitrary: w)
  case Nil
  then show ?case by (auto split: if_splits)
next
  case (Cons c cs)
  show ?case
  proof (cases "is_space c")
    case True
    with Cons.prems have "x = w \<and> w \<noteq> [] \<or> x \<in> set (split_ws [] cs)"
      by (auto split: if_splits)
    then show ?thesis using Cons.IH [of "[]"] Cons.prems(1) by auto
  next
    case False
    with Cons.prems have "x \<in> set (split_ws (w @ [c]) cs)" by simp
    moreover have "\<forall>d\<in>set (w @ [c]). \<not> is_space d" using False Cons.prems(1) by simp
    ultimately show ?thesis using Cons.IH by blast
  qed
qed

lemma py_split_words:
  "x \<in> set (py_split s) \<Longrightarrow> x \<noteq> [] \<and> (\<forall>c\<in>set x. \<not> is_space c)"
  unfolding py_split_def using split_ws_words [of "[]" x s] by simp

text \<open>Joining words with single spaces and splitting again gives the words back.\<close>

lemma py_split_join_space:
  "\<forall>x\<in>set ws. x \<noteq> [] \<and> (\<forall>c\<in>set x. \<not> is_space c) \<Longrightarrow> py_split (join_space ws) = ws"
proof (induction ws rule: join_space.induct)
  case 1
  then show ?case by (simp add: py_split_def)
next
  case (2 w)
  then have "split_ws [] (w @ []) = split_ws ([] @ w) []"
    by (intro split_ws_nonspace) simp
  with 2 show ?case by (simp add: py_split_def)
next
  case (3 w v ws)
  have "split_ws [] (w @ CHR '' '' # join_space (v # ws))
      = split_ws ([] @ w) (CHR '' '' # join_space (v # ws))"
    using 3 by (intro split_ws_nonspace) simp
  moreover have "is_space (CHR '' '')" by (simp add: is_space_def)
  moreover have "w \<noteq> []" using 3 by simp
  moreover have "py_split (join_space (v # ws)) = v # ws" using 3 by simp
  ultimately show ?case by (simp add: py_split_def)
qed

lemma py_slice_window:
  assumes "0 \<le> a" "0 \<le> m" "a + m \<le> int (length xs)"
  shows "py_slice xs a (a + m) = take (nat m) (drop (nat a) xs)"
proof -
  have "slice_bound (length xs) a = nat a" using assms by (simp add: slice_bound_def)
  moreover have "slice_bound (length xs) (a + m) = nat (a + m)"
    using assms by (simp add: slice_bound_def)
  moreover have "nat (a + m) - nat a = nat m" using assms by simp
  ultimately show ?thesis by (simp add: py_slice_def)
qed

lemma window_word_count:
  assumes "0 \<le> a" "0 < m" "a + m < int (length (py_split q))"
  shows "int (length (py_split (join_space (py_slice (py_split q) a (a + m))))) = m"
proof -
  let ?ws = "take (nat m) (drop (nat a) (py_split q))"
  have eq: "py_slice (py_split q) a (a + m) = ?ws"
    using assms by (intro py_slice_window) simp_all
  have "set ?ws \<subseteq> set (py_split q)"
    by (meson set_take_subset set_drop_subset subset_trans)
  then have "\<forall>x\<in>set ?ws. x \<noteq> [] \<and> (\<forall>c\<in>set x. \<not> is_space c)"
    using py_split_words by blast
  then have "py_split (join_space ?ws) = ?ws" by (rule py_split_join_space)
  moreover have "length ?ws = nat m" using assms by simp
  ultimately show ?thesis using eq assms by simp
qed

subsection \<open>The loops return, and keep the invariant\<close>

lemma segment_while_full_windows:
  assumes "0 < m" "0 < step"
  shows "full_windows m st \<Longrightarrow>
    \<exists>st'. segment_while (py_split q) m step q_i st = Some st' \<and> full_windows m st'"
proof (induction "nat (int (length (py_split q)) - (s_segment_start st + m))"
    arbitrary: st rule: less_induct)
  case less
  show ?case
  proof (cases "s_segment_start st + m < int (length (py_split q))")
    case False
    then show ?thesis using less.prems by (subst segment_while.simps) simp
  next
    case True
    let ?st = "\<lparr>s_segments = s_segments st @
           [join_space (py_slice (py_split q) (s_segment_start st) (s_segment_start st + m))],
         s_query_indices = s_query_indices st @ [int q_i],
         s_start_word_i = s_start_word_i st @ [s_segment_start st],
         s_segment_start = s_segment_start st + step\<rparr>"
    have "int (length (py_split (join_space
        (py_slice (py_split q) (s_segment_start st) (s_segment_start st + m))))) = m"
      using less.prems True assms by (intro window_word_count) (simp_all add: full_windows_def)
    then have inv: "full_windows m ?st" using less.prems assms by (simp add: full_windows_def)
    have "nat (int (length (py_split q)) - (s_segment_start ?st + m))
        < nat (int (length (py_split q)) - (s_segment_start st + m))"
      using True assms by simp
    from less.hyps [OF this inv] obtain st' where
      "segment_while (py_split q) m step q_i ?st = Some st'" "full_windows m st'" by blast
    then show ?thesis using True by (subst segment_while.simps) simp
  qed
qed

lemma query_for_full_windows:
  assumes "0 < m" "0 < step"
  shows "full_windows m st \<Longrightarrow>
    \<exists>st'. query_for m step q_i texts st = Some st' \<and> full_windows m st'"
proof (induction texts arbitrary: q_i st)
  case Nil
  then show ?case by simp
next
  case (Cons q texts)
  from segment_while_full_windows [OF assms Cons.prems, of q q_i] obtain st1 where
    st1: "segment_while (py_split q) m step q_i st = Some st1" "full_windows m st1" by blast
  from Cons.IH [OF st1(2), of "Suc q_i"] st1(1) show ?case by simp
qed

text \<open>
  Claim C10. For every list of texts and every positive \<^verbatim>\<open>max_seq_length\<close> and
  \<^verbatim>\<open>step\<close>, \<^verbatim>\<open>split_into_segments\<close> returns, and every segment string it emits
  splits into exactly \<^verbatim>\<open>max_seq_length\<close> whitespace-delimited words: there is no
  shorter final window.
\<close>

theorem segments_are_full_windows:
  assumes "0 < max_seq_length" and "0 < step"
  shows "\<exists>segments query_indices start_word_i.
     split_into_segments texts max_seq_length step = Some (segments, query_indices, start_word_i) \<and>
     list_all (\<lambda>s. int (length (py_split s)) = max_seq_length) segments"
proof -
  let ?st0 = "\<lparr>s_segments = [], s_query_indices = [], s_start_word_i = [], s_segment_start = 0\<rparr>"
  have "full_windows max_seq_length ?st0" by (simp add: full_windows_def)
  from query_for_full_windows [OF assms this, of 0 texts] obtain st' where
    "query_for max_seq_length step 0 texts ?st0 = Some st'" "full_windows max_seq_length st'"
    by blast
  then show ?thesis by (simp add: split_into_segments_def full_windows_def)
qed

theorem segments_are_full_windows_witness:
  "(0::int) < 3 \<and> (0::int) < 1 \<and>
   split_into_segments [''a b c d e''] 3 1 = Some ([''a b c'', ''b c d''], [0, 0], [0, 1]) \<and>
   list_all (\<lambda>s. int (length (py_split s)) = 3) [''a b c'', ''b c d'']"
proof -
  have ev: "split_into_segments [''a b c d e''] 3 1 = Some ([''a b c'', ''b c d''], [0, 0], [0, 1])"
    by code_simp
  from segments_are_full_windows [of 3 1 "[''a b c d e'']"] ev show ?thesis by simp
qed

subsection \<open>Where the segmenter leaves the documented behaviour\<close>

text \<open>
  A query of at most \<^verbatim>\<open>max_seq_length\<close> words fails the loop test at once: when it
  is the only query, nothing is emitted, whatever the step.
\<close>

lemma short_query_emits_nothing:
  assumes "int (length (py_split query)) \<le> max_seq_length"
  shows "split_into_segments [query] max_seq_length step = Some ([], [], [])"
proof -
  let ?st0 = "\<lparr>s_segments = [], s_query_indices = [], s_start_word_i = [], s_segment_start = 0\<rparr>"
  have "segment_while (py_split query) max_seq_length step 0 ?st0 = Some ?st0"
    using assms by (subst segment_while.simps) simp
  then show ?thesis by (simp add: split_into_segments_def)
qed

text \<open>
  Claim C2. A query with fewer words than \<^verbatim>\<open>max_seq_length\<close> should yield exactly
  one segment holding all its words. The code emits no segment for it: the two-word
  query below, with \<^verbatim>\<open>max_seq_length = 3\<close>, leaves all three result lists empty.
\<close>

theorem short_query_gets_no_segment:
  "split_into_segments [''a b''] 3 1 = Some ([], [], [])"
  by code_simp

text \<open>
  Claim C3. The emitted windows should cover every word index of the query. With six
  words, \<^verbatim>\<open>max_seq_length = 4\<close> and \<^verbatim>\<open>step = 2\<close> (a valid configuration with
  \<^verbatim>\<open>margin = 1\<close>) the code emits the single window of words 0 to 3; the window
  starting at 2 would end exactly at the word count and fails the strict test, so
  words 4 and 5 belong to no segment.
\<close>

theorem query_tail_not_covered:
  "split_into_segments [''a b c d e f''] 4 2 = Some ([''a b c d''], [0], [0])"
  by code_simp

text \<open>
  Claim C4. The start offsets of every query should be \<open>0, step, 2 * step, \<dots>\<close>,
  restarting at 0 for each query, with the configured step as the stride. In the code
  \<^verbatim>\<open>segment_start\<close> carries over from one query to the next: the second query
  below gets the single offset 2. And \<^verbatim>\<open>main\<close> passes \<^verbatim>\<open>args.margin\<close> where the
  step is expected: with step 1 and margin 2 the offsets are 0 and 2.
\<close>

theorem segment_offsets_not_restarted:
  "split_into_segments [''a b c'', ''d e f g''] 1 1
     = Some ([''a'', ''b'', ''f''], [0, 0, 1], [0, 1, 2])
   \<and> main_segments \<lparr>args_input_manifest = None, args_output_manifest = None,
         args_max_seq_length = 5, args_step = 1, args_margin = 2\<rparr> [''a b c d e f g h'']
     = Some ([''a b c d e'', ''c d e f g''], [0, 0], [0, 2])"
  by code_simp

section \<open>Properties of the argument checks\<close>

text \<open>
  Claim C9. A configuration with \<^verbatim>\<open>max_seq_length\<close> not positive, or with
  \<^verbatim>\<open>max_seq_length - 2 * margin < step\<close>, should be rejected with a fatal error
  that reports the offending values. The checks that would do so follow
  \<^verbatim>\<open>parse_args\<close>, and \<^verbatim>\<open>get_args\<close> never gets that far: building the parser
  raises \<^verbatim>\<open>TypeError\<close> at the misspelt keyword, whatever the command line. So
  for \<^verbatim>\<open>max_seq_length = 0\<close>, and for \<^verbatim>\<open>max_seq_length = 64\<close>, \<^verbatim>\<open>margin = 30\<close>,
  \<^verbatim>\<open>step = 8\<close>, the outcome is the \<^verbatim>\<open>TypeError\<close> and no value is reported.
\<close>

theorem get_args_raises_before_checks:
  "(\<forall>parsed. get_args parsed = Inl (Raises TypeError))
   \<and> get_args \<lparr>args_input_manifest = None, args_output_manifest = None,
         args_max_seq_length = 0, args_step = 8, args_margin = 16\<rparr>
       = Inl (Raises TypeError)
   \<and> get_args_checks \<lparr>args_input_manifest = None, args_output_manifest = None,
         args_max_seq_length = 0, args_step = 8, args_margin = 16\<rparr>
       = Inl (MaxSeqLengthNotPositive 0)
   \<and> get_args \<lparr>args_input_manifest = None, args_output_manifest = None,
         args_max_seq_length = 64, args_step = 8, args_margin = 30\<rparr>
       = Inl (Raises TypeError)
   \<and> get_args_checks \<lparr>args_input_manifest = None, args_output_manifest = None,
         args_max_seq_length = 64, args_step = 8, args_margin = 30\<rparr>
       = Inl (MarginStepCondition 64 30 8)"
  by (simp add: get_args_def add_argument_def get_args_checks_def)

section \<open>Properties of the label aligner\<close>

text \<open>
  Claim C5. The aligner should return a label string with exactly as many
  capitalization tags as the segment has words. The code counts the tag characters in
  the segment text instead of the label string. The first pair below has two words
  and two tags already; the words hold no tag character, so two neutral tags are
  appended and the result has four. The second pair has one tag for two words; its
  label string ends with a space, so nothing is appended and one tag remains.
\<close>

theorem aligner_tag_count_mismatch:
  "adjust_predicted_labels_length [''hello world'', ''good morning''] [''O O'', ''U ''] ''OuU''
     = Inr [''O O O O '', ''U '']"
  by code_simp

text \<open>
  Claim C6. A label string whose tag count already equals the word count should come
  back unchanged. The three-word segment below has three tags, and the code appends
  three more.
\<close>

theorem aligner_changes_aligned_labels:
  "adjust_predicted_labels_length [''the cat sat''] [''O O O.''] ''OuU''
     = Inr [''O O O. O O O '']"
  by code_simp

section \<open>Properties of the vote accumulation\<close>

subsection \<open>The margins of a segment\<close>

text \<open>
  Claim C8. In a segment that is not the first of its query, a word among the first
  \<^verbatim>\<open>margin\<close> words should contribute no vote; in a segment that is not the last,
  processing should stop once more than \<^verbatim>\<open>num_words_in_segment - margin\<close> words
  have been processed; the first segment is never skipped, the last never stopped.

  The code does not do this. On the four-word query below, with two segments of three
  words and \<^verbatim>\<open>margin = 1\<close>, it raises \<^verbatim>\<open>AssertionError\<close> at the first field of the
  first segment: \<^verbatim>\<open>j\<close> is never advanced, so the second segment, the only one with
  a leading margin, is never looked at, and nothing is skipped or stopped by the
  margin tests.

  Nor does the loop over the fields count words. \<^verbatim>\<open>lbl in capitalization_labels\<close>
  is a substring test, true of the empty string, so an empty punctuation field is
  counted as a word. Run on the alternating fields of the label string \<^verbatim>\<open>U O u\<close>
  (empty, \<^verbatim>\<open>U\<close>, space, \<^verbatim>\<open>O\<close>, space, \<^verbatim>\<open>u\<close>, empty) as segment 1, not the last,
  with \<^verbatim>\<open>margin = 1\<close>, the loop spends the skip on the empty first field, records
  the vote of word 0, which lies in the leading margin, and stops before word 1, which
  lies in the core.
\<close>

theorem margin_rule_not_applied:
  "apply_autoregressive_labels [''a b c d''] [''O O O'', ''U O u''] [0, 0] [0, 1] 1 1 ''OuU''
     = Some (Inl AssertionError)
   \<and> label_for ''OuU'' 1 1 False 3 0 [[], ''U'', '' '', ''O'', '' '', ''u'', []] 0
       \<lparr>punctuation_voting = [{#}, {#}, {#}, {#}], capitalization_voting = [{#}, {#}, {#}]\<rparr>
     = Inr \<lparr>punctuation_voting = [{#}, {#'' ''#}, {#}, {#}],
            capitalization_voting = [{#''U''#}, {#}, {#}]\<rparr>"
proof -
  have "apply_autoregressive_labels [''a b c d''] [''O O O'', ''U O u''] [0, 0] [0, 1] 1 1 ''OuU''
     = Some (Inl AssertionError)"
    by code_simp
  moreover have "label_for ''OuU'' 1 1 False 3 0 [[], ''U'', '' '', ''O'', '' '', ''u'', []] 0
       \<lparr>punctuation_voting = [{#}, {#}, {#}, {#}], capitalization_voting = [{#}, {#}, {#}]\<rparr>
     = Inr \<lparr>punctuation_voting = [{#}, {#'' ''#}, {#}, {#}],
            capitalization_voting = [{#''U''#}, {#}, {#}]\<rparr>"
    by (simp add: Let_def)
  ultimately show ?thesis by simp
qed

subsection \<open>What the loops of \<^verbatim>\<open>apply_autoregressive_labels\<close> do\<close>

text \<open>
  The first field of \<^verbatim>\<open>capitalization_labels.split(\<dots>)\<close> is a prefix of the label
  alphabet, so it counts as a word and, at the even position 0, fails the assertion of
  the punctuation branch.
\<close>

lemma str_in_prefix: "str_in p (p @ r)"
proof (cases "p @ r")
  case Nil
  then show ?thesis by simp
next
  case (Cons c cs)
  have "take (length p) (p @ r) = p" by simp
  with Cons show ?thesis by simp
qed

lemma str_split_head:
  "\<exists>p r xs. str_split sep w s = (w @ p) # xs \<and> s = p @ r"
proof (induction sep w s rule: str_split.induct)
  case (1 sep w)
  then show ?case by simp
next
  case (2 sep w c cs)
  show ?case
  proof (cases "sep \<noteq> [] \<and> take (length sep) (c # cs) = sep")
    case True
    then have "str_split sep w (c # cs) = (w @ []) # str_split sep [] (drop (length sep) (c # cs))"
      by simp
    moreover have "c # cs = [] @ (c # cs)" by simp
    ultimately show ?thesis by blast
  next
    case False
    with 2 obtain p r xs where "str_split sep (w @ [c]) cs = ((w @ [c]) @ p) # xs" "cs = p @ r"
      by blast
    with False have "str_split sep w (c # cs) = (w @ (c # p)) # xs \<and> c # cs = (c # p) @ r"
      by simp
    then show ?thesis by blast
  qed
qed

text \<open>
  With \<open>j = 0\<close>, the only value \<^verbatim>\<open>j\<close> ever has, the body of the \<^verbatim>\<open>while\<close> loop
  raises or leaves the tallies as they were: no vote is cast.
\<close>

lemma segment_body_first_keeps_votes:
  assumes "segment_body capitalization_labels segment_autoregressive_labels step margin num_words 0 v = Inr v'"
  shows "v' = v"
proof -
  from assms obtain segment_labels where
    sl: "py_index segment_autoregressive_labels (int 0) = Inr segment_labels"
    by (auto simp: segment_body_def split: sum.splits)
  from str_split_head [of segment_labels "[]" capitalization_labels] obtain p r xs where
    sp: "str_split segment_labels [] capitalization_labels = p # xs" "capitalization_labels = p @ r"
    by auto
  then have "str_in p capitalization_labels" using str_in_prefix by simp
  with assms sl sp(1) show ?thesis
    by (auto simp: segment_body_def Let_def split: if_splits)
qed

text \<open>A body that returns normally is run again in the same state, without end.\<close>

lemma voting_while_stuck:
  assumes "voting_while capitalization_labels segment_autoregressive_labels query_indices step margin
       num_words q_i j v = Some y"
  shows "py_index query_indices (int j) = Inr (int q_i) \<longrightarrow>
     segment_body capitalization_labels segment_autoregressive_labels step margin num_words j v = Inr v
     \<longrightarrow> False"
  using assms
  by (rule voting_while.raw_induct [where P = "\<lambda>cl sal qis st mg nw qi jj vv yy.
        py_index qis (int jj) = Inr (int qi) \<longrightarrow> segment_body cl sal st mg nw jj vv = Inr vv \<longrightarrow> False",
        rotated])
     (auto split: sum.splits if_splits)

lemma voting_while_diverges:
  assumes "py_index query_indices (int j) = Inr (int q_i)"
    and "segment_body capitalization_labels segment_autoregressive_labels step margin num_words j v = Inr v"
  shows "voting_while capitalization_labels segment_autoregressive_labels query_indices step margin
       num_words q_i j v = None"
  using voting_while_stuck assms by (cases "voting_while capitalization_labels segment_autoregressive_labels query_indices step margin
       num_words q_i j v") blast+

lemma apply_autoregressive_labels_may_not_return:
  "apply_autoregressive_labels [''a b c''] [''O O''] [0] [0] 1 2 ''OuU'' = None"
proof -
  have w: "length (py_split ''a b c'') = 3" by code_simp
  have i: "py_index [0] (int 0) = Inr (int 0)" by (simp add: py_index_def)
  have s: "str_split ''O O'' [] ''OuU'' = [''OuU'']" by simp
  have c: "count_labels ''OuU'' ''O O'' = 2" by (simp add: count_labels_def)
  have b: "segment_body ''OuU'' [''O O''] 1 2 3 0 v = Inr v" for v
    by (simp add: segment_body_def py_index_def s c Let_def)
  have "voting_while ''OuU'' [''O O''] [0] 1 2 3 0 0 v = None" for v
    using i b by (rule voting_while_diverges)
  then show ?thesis by (simp add: apply_autoregressive_labels_def w)
qed

text \<open>
  Claim C1. The reconciliation step should return one final text per query, in query
  order. The code has no \<^verbatim>\<open>return\<close> statement and never resolves its tallies. On
  the query \<^verbatim>\<open>the cat sat\<close> with its single aligned segment it raises
  \<^verbatim>\<open>AssertionError\<close>; on the empty list of queries it returns \<^verbatim>\<open>None\<close> rather than
  an empty list.
\<close>

theorem apply_autoregressive_labels_returns_no_list:
  "apply_autoregressive_labels [''the cat sat''] [''O O O.''] [0] [0] 1 0 ''OuU''
     = Some (Inl AssertionError)
   \<and> apply_autoregressive_labels [] [] [] [] 1 0 ''OuU'' = Some (Inr None)"
  by code_simp

text \<open>
  Claim C7. For a query covered by one segment whose labels give tag \<open>U\<close> to word
  \<open>w\<close>, the capitalization counter of \<open>w\<close> should hold exactly one vote, for \<open>U\<close>.
  On the one-word query \<^verbatim>\<open>hello\<close> with the label string \<^verbatim>\<open>U\<close> the body of the
  segment loop raises \<^verbatim>\<open>AssertionError\<close> before any counter is updated, and so does
  the whole function.
\<close>

theorem single_segment_casts_no_vote:
  "segment_body ''OuU'' [''U''] 1 0 1 0
       \<lparr>punctuation_voting = [{#}, {#}], capitalization_voting = [{#}]\<rparr>
     = Inl AssertionError
   \<and> apply_autoregressive_labels [''hello''] [''U''] [0] [0] 1 0 ''OuU''
     = Some (Inl AssertionError)"
  by code_simp

end
